theory Spec2Isabelle
  imports Main
begin

section \<open>Data model\<close>

text \<open>
  The interfaces of \<^verbatim>\<open>link-extractor.service.ts\<close>. A JavaScript string is
  modelled as the list of its code units, for code units below 256; an optional
  field is an \<open>option\<close>, \<open>None\<close> standing for an absent or \<^verbatim>\<open>undefined\<close> property.
  The field \<^verbatim>\<open>text\<close> of \<^verbatim>\<open>PageLink\<close> is written \<open>text'\<close>.
\<close>

record sitemap_path =
  sitemap_url :: string

record page_link =
  url :: string
  text' :: "string option"
  source :: "string option"
  lastmod :: "string option"
  priority :: "string option"
  changefreq :: "string option"

section \<open>String operations\<close>

text \<open>
  The methods of \<^verbatim>\<open>String.prototype\<close> and the regular expressions the service uses.
  \<open>isLineTerminator\<close> holds of the code units a \<^verbatim>\<open>.\<close> of a regular expression does not
  match; \<open>isWhiteSpace\<close> of those \<^verbatim>\<open>trim\<close> strips (white space and line terminators).
\<close>

definition isLineTerminator :: "char \<Rightarrow> bool" where
  "isLineTerminator c = (c = CHR 0x0A \<or> c = CHR 0x0D)"

definition isWhiteSpace :: "char \<Rightarrow> bool" where
  "isWhiteSpace c =
     (c = CHR 0x09 \<or> c = CHR 0x0A \<or> c = CHR 0x0B \<or> c = CHR 0x0C \<or> c = CHR 0x0D \<or>
      c = CHR 0x20 \<or> c = CHR 0xA0)"

definition trim :: "string \<Rightarrow> string" where
  "trim s = rev (dropWhile isWhiteSpace (rev (dropWhile isWhiteSpace s)))"

definition toLowerChar :: "char \<Rightarrow> char" where
  "toLowerChar c =
     (let n = (of_char c :: nat) in
      if (65 \<le> n \<and> n \<le> 90) \<or> (192 \<le> n \<and> n \<le> 222 \<and> n \<noteq> 215) then char_of (n + 32) else c)"

definition toLowerCase :: "string \<Rightarrow> string" where
  "toLowerCase s = map toLowerChar s"

definition startsWith :: "string \<Rightarrow> string \<Rightarrow> bool" where
  "startsWith s p = (take (length p) s = p)"

definition endsWith :: "string \<Rightarrow> string \<Rightarrow> bool" where
  "endsWith s p = (length p \<le> length s \<and> drop (length s - length p) s = p)"

text \<open>\<^verbatim>\<open>s.split("\n")\<close>: the pieces between the separators, \<^verbatim>\<open>[""]\<close> for the empty string.\<close>

fun split :: "string \<Rightarrow> char \<Rightarrow> string list" where
  "split [] sep = [[]]"
| "split (c # cs) sep =
     (if c = sep then [] # split cs sep
      else (case split cs sep of [] \<Rightarrow> [[c]] | piece # pieces \<Rightarrow> (c # piece) # pieces))"

text \<open>
  The flag \<^verbatim>\<open>i\<close> compares canonical forms, the upper case of a code unit. The canonical
  form of a code unit from 128 on is never an ASCII one, so against the ASCII patterns
  of this service only the ASCII letters are folded.
\<close>

definition canonicalize :: "char \<Rightarrow> char" where
  "canonicalize c =
     (let n = (of_char c :: nat) in if 97 \<le> n \<and> n \<le> 122 then char_of (n - 32) else c)"

definition startsWithCI :: "string \<Rightarrow> string \<Rightarrow> bool" where
  "startsWithCI s p =
     (length p \<le> length s \<and> map canonicalize (take (length p) s) = map canonicalize p)"

text \<open>\<^verbatim>\<open>/p/i.test(s)\<close> for a pattern \<open>p\<close> of literal characters: \<open>p\<close> occurs somewhere in \<open>s\<close>.\<close>

fun regexTestCI :: "string \<Rightarrow> string \<Rightarrow> bool" where
  "regexTestCI p [] = startsWithCI [] p"
| "regexTestCI p (c # cs) = (startsWithCI (c # cs) p \<or> regexTestCI p cs)"

text \<open>
  \<^verbatim>\<open>line.match(/Sitemap: (.*)/i)\<close>: \<open>None\<close> for \<^verbatim>\<open>null\<close>, else the capture \<^verbatim>\<open>match[1]\<close>, the
  rest of the line after the leftmost occurrence, up to the first line terminator.
\<close>

fun matchSitemapLine :: "string \<Rightarrow> string option" where
  "matchSitemapLine [] = None"
| "matchSitemapLine (c # cs) =
     (if startsWithCI (c # cs) ''Sitemap: ''
      then Some (takeWhile (\<lambda>x. \<not> isLineTerminator x) (drop 9 (c # cs)))
      else matchSitemapLine cs)"

text \<open>
  \<^verbatim>\<open>data.match(/<loc>(.*?)<\/loc>/g)\<close>: the matches from left to right, none overlapping
  (the empty list for \<^verbatim>\<open>null\<close>). \<open>lazyUntilClose\<close> is \<^verbatim>\<open>(.*?)<\/loc>\<close> at a position:
  the shortest run without a line terminator that \<^verbatim>\<open></loc>\<close> follows.
\<close>

fun lazyUntilClose :: "string \<Rightarrow> string option" where
  "lazyUntilClose [] = None"
| "lazyUntilClose (c # cs) =
     (if startsWith (c # cs) ''</loc>'' then Some []
      else if isLineTerminator c then None
      else map_option ((#) c) (lazyUntilClose cs))"

definition matchLocAt :: "string \<Rightarrow> string option" where
  "matchLocAt s =
     (if startsWith s ''<loc>''
      then map_option (\<lambda>inner. ''<loc>'' @ inner @ ''</loc>'') (lazyUntilClose (drop 5 s))
      else None)"

function matchLocAll :: "string \<Rightarrow> string list" where
  "matchLocAll [] = []"
| "matchLocAll (c # cs) =
     (case matchLocAt (c # cs) of
        Some m \<Rightarrow> m # matchLocAll (drop (length m) (c # cs))
      | None \<Rightarrow> matchLocAll cs)"
  by pat_completeness auto
termination
  by (relation "measure length") (auto simp: matchLocAt_def split: if_splits)

text \<open>\<^verbatim>\<open>match.replace(/<loc>|<\/loc>/g, "")\<close>.\<close>

fun removeLocTags :: "string \<Rightarrow> string" where
  "removeLocTags [] = []"
| "removeLocTags (c # cs) =
     (if startsWith (c # cs) ''<loc>'' then removeLocTags (drop 5 (c # cs))
      else if startsWith (c # cs) ''</loc>'' then removeLocTags (drop 6 (c # cs))
      else c # removeLocTags cs)"

section \<open>Insertion-ordered Map and Set\<close>

text \<open>
  A JavaScript \<^verbatim>\<open>Map\<close> iterates in insertion order, and \<^verbatim>\<open>set\<close> on a key that is
  present keeps the key's position: the model is the list of its entries, oldest first.
  A \<^verbatim>\<open>Set\<close> is the list of its members, oldest first.
\<close>

type_synonym ('k, 'v) js_map = "('k \<times> 'v) list"

definition map_has :: "('k, 'v) js_map \<Rightarrow> 'k \<Rightarrow> bool" where
  "map_has m k = (k \<in> set (map fst m))"

definition map_set :: "('k, 'v) js_map \<Rightarrow> 'k \<Rightarrow> 'v \<Rightarrow> ('k, 'v) js_map" where
  "map_set m k v =
     (if map_has m k then map (\<lambda>(k', v'). if k' = k then (k', v) else (k', v')) m
      else m @ [(k, v)])"

definition map_values :: "('k, 'v) js_map \<Rightarrow> 'v list" where
  "map_values m = map snd m"

definition set_add :: "'a list \<Rightarrow> 'a \<Rightarrow> 'a list" where
  "set_add s x = (if x \<in> set s then s else s @ [x])"

definition new_Set :: "'a list \<Rightarrow> 'a list" where
  "new_Set xs = foldl set_add [] xs"

section \<open>Deduplication of links\<close>

text \<open>
  The last block of \<^verbatim>\<open>extractAllLinks\<close>: the loop over \<^verbatim>\<open>allLinks\<close> that fills
  \<^verbatim>\<open>uniqueUrls\<close>, and \<^verbatim>\<open>Array.from(uniqueUrls.values())\<close>.
\<close>

fun dedupLoop :: "page_link list \<Rightarrow> (string, page_link) js_map \<Rightarrow> (string, page_link) js_map" where
  "dedupLoop [] uniqueUrls = uniqueUrls"
| "dedupLoop (link # rest) uniqueUrls =
     dedupLoop rest
       (if \<not> map_has uniqueUrls (url link) then map_set uniqueUrls (url link) link
        else uniqueUrls)"

definition dedupLinks :: "page_link list \<Rightarrow> page_link list" where
  "dedupLinks allLinks = map_values (dedupLoop allLinks [])"

section \<open>The capabilities the service consumes\<close>

text \<open>
  The service reaches the network through \<^verbatim>\<open>axios\<close> and reads markup through
  \<^verbatim>\<open>xml2js\<close>, \<^verbatim>\<open>cheerio\<close> and \<^verbatim>\<open>node:url\<close>. They are parameters of the model, one
  record of functions, fixed for the duration of a call:
  \<^item> \<open>http_get u\<close> is \<^verbatim>\<open>response.data\<close> of \<^verbatim>\<open>axios.get(u)\<close>, and \<open>None\<close> when the request is
    rejected. \<^verbatim>\<open>axios\<close> hands a body on as a string, \<open>Text\<close>, unless the body is JSON: then
    it hands on the parsed value. \<open>NonText s\<close> is such a value that is not a string (an
    object, an array, a number, a boolean or \<^verbatim>\<open>null\<close>), \<open>s\<close> being its conversion to a
    string. It has no method \<^verbatim>\<open>split\<close> or \<^verbatim>\<open>match\<close>, and \<^verbatim>\<open>RegExp.prototype.test\<close> reads \<open>s\<close>;
  \<^item> \<open>http_head u\<close> holds when \<^verbatim>\<open>axios.head(u)\<close> is fulfilled;
  \<^item> \<open>url_resolve from to\<close> is \<^verbatim>\<open>url.resolve(from, to)\<close>, total on strings as its type says;
  \<^item> \<open>xml_parse data\<close> is the outcome of \<^verbatim>\<open>parser.parseStringPromise(data)\<close>;
  \<^item> \<open>html_sitemap_link data\<close> is \<^verbatim>\<open>$('link[rel="sitemap"]').attr("href")\<close> and
    \<open>html_anchors data\<close> lists, for every \<^verbatim>\<open>a\<close> element in document order, its
    \<^verbatim>\<open>attr("href")\<close> and its \<^verbatim>\<open>text()\<close>, both for \<^verbatim>\<open>$ = cheerio.load(data)\<close>.

  Of the object \<^verbatim>\<open>xml2js\<close> builds, the model keeps what the service reads. An entry of
  \<^verbatim>\<open>result.urlset.url\<close> or \<^verbatim>\<open>result.sitemapindex.sitemap\<close> is an \<open>xml_entry\<close>: \<open>e_loc\<close> is
  \<^verbatim>\<open>entry.loc[0]\<close>, and \<open>None\<close> when \<^verbatim>\<open>entry.loc\<close> is \<^verbatim>\<open>undefined\<close> (the element has no
  \<^verbatim>\<open>loc\<close> child, or is text only, which \<^verbatim>\<open>xml2js\<close> renders as a string); the other
  fields likewise. The children \<^verbatim>\<open>loc\<close>, \<^verbatim>\<open>lastmod\<close>, \<^verbatim>\<open>priority\<close> and \<^verbatim>\<open>changefreq\<close>
  hold text, as \<^verbatim>\<open>PageLink\<close> declares. \<open>ParsedNull\<close> is the \<^verbatim>\<open>null\<close> that \<^verbatim>\<open>xml2js\<close>
  yields for a blank document.
\<close>

datatype body = Text string | NonText string

definition toString :: "body \<Rightarrow> string" where
  "toString data = (case data of Text t \<Rightarrow> t | NonText s \<Rightarrow> s)"

record xml_entry =
  e_loc :: "string option"
  e_lastmod :: "string option"
  e_priority :: "string option"
  e_changefreq :: "string option"

record xml_result =
  sitemapindex_sitemap :: "xml_entry list option"
  urlset_url :: "xml_entry list option"
  news_news :: bool

datatype parsed = ParseError | ParsedNull | Parsed xml_result

record env =
  http_get :: "string \<Rightarrow> body option"
  http_head :: "string \<Rightarrow> bool"
  url_resolve :: "string \<Rightarrow> string \<Rightarrow> string"
  xml_parse :: "body \<Rightarrow> parsed"
  html_sitemap_link :: "body \<Rightarrow> string option"
  html_anchors :: "body \<Rightarrow> (string option \<times> string) list"

datatype request = GET string | HEAD string

datatype error = ParseFailure | TypeError

section \<open>Sitemap Locator\<close>

text \<open>
  Each operation of the locator returns its result together with the requests it
  issues, in order: which probes run is part of what \<^verbatim>\<open>getAllSitemapPaths\<close> does.
\<close>

definition ROBOTS_TXT :: string where
  "ROBOTS_TXT = ''/robots.txt''"

definition extractSitemapUrl :: "env \<Rightarrow> string \<Rightarrow> sitemap_path option \<times> request list" where
  "extractSitemapUrl env websiteUrl =
     (let sitemapUrl = websiteUrl @ ''/sitemap.xml'' in
      (if http_head env sitemapUrl then Some \<lparr>sitemap_url = sitemapUrl\<rparr> else None,
       [HEAD sitemapUrl]))"

fun robotsLines :: "string list \<Rightarrow> sitemap_path list \<Rightarrow> sitemap_path list" where
  "robotsLines [] sitemapPaths = sitemapPaths"
| "robotsLines (line # rest) sitemapPaths =
     robotsLines rest
       (case matchSitemapLine line of
          Some m \<Rightarrow> sitemapPaths @ [\<lparr>sitemap_url = trim m\<rparr>]
        | None \<Rightarrow> sitemapPaths)"

definition extractSitemapsFromRobotsTxt :: "env \<Rightarrow> string \<Rightarrow> sitemap_path list \<times> request list" where
  "extractSitemapsFromRobotsTxt env websiteUrl =
     (let robotsTxtUrl = url_resolve env websiteUrl ROBOTS_TXT in
      (case http_get env robotsTxtUrl of
         None \<Rightarrow> []
       | Some (Text data) \<Rightarrow> robotsLines (split data CHR 0x0A) []
       | Some (NonText s) \<Rightarrow> [],
       [GET robotsTxtUrl]))"

definition hasSitemapMention :: "string \<Rightarrow> bool" where
  "hasSitemapMention data = regexTestCI ''sitemap'' data"

definition hasSitemapDirective :: "string \<Rightarrow> bool" where
  "hasSitemapDirective data = regexTestCI ''Sitemap: '' data"

definition checkRobotsTxtForSitemapPath :: "env \<Rightarrow> string \<Rightarrow> bool \<times> request list" where
  "checkRobotsTxtForSitemapPath env websiteUrl =
     (let robotsTxtUrl = url_resolve env websiteUrl ROBOTS_TXT in
      (case http_get env robotsTxtUrl of
         None \<Rightarrow> False
       | Some data \<Rightarrow> hasSitemapMention (toString data) \<or> hasSitemapDirective (toString data),
       [GET robotsTxtUrl]))"

definition findSitemapInHtmlHeader :: "env \<Rightarrow> string \<Rightarrow> sitemap_path option \<times> request list" where
  "findSitemapInHtmlHeader env websiteUrl =
     (case http_get env websiteUrl of
        None \<Rightarrow> None
      | Some data \<Rightarrow>
          (case html_sitemap_link env data of
             None \<Rightarrow> None
           | Some sitemapLink \<Rightarrow>
               if sitemapLink = [] then None
               else Some \<lparr>sitemap_url = url_resolve env websiteUrl sitemapLink\<rparr>),
      [GET websiteUrl])"

definition commonPaths :: "string list" where
  "commonPaths =
     [''/sitemap.xml'', ''/sitemap_index.xml'', ''/sitemap-index.xml'', ''/sitemapindex.xml'',
      ''/sitemap/'', ''/sitemaps/'', ''/sitemap/sitemap.xml'', ''/wp-sitemap.xml'',
      ''/news-sitemap.xml'', ''/image-sitemap.xml'', ''/video-sitemap.xml'',
      ''/post-sitemap.xml'']"

fun commonLoop ::
  "env \<Rightarrow> string \<Rightarrow> string list \<Rightarrow> sitemap_path list \<times> request list \<Rightarrow>
   sitemap_path list \<times> request list" where
  "commonLoop env websiteUrl [] state = state"
| "commonLoop env websiteUrl (path # rest) (foundSitemaps, requests) =
     (let sitemapUrl = url_resolve env websiteUrl path in
      commonLoop env websiteUrl rest
        (if http_head env sitemapUrl then foundSitemaps @ [\<lparr>sitemap_url = sitemapUrl\<rparr>]
         else foundSitemaps,
         requests @ [HEAD sitemapUrl]))"

definition checkCommonSitemapPaths :: "env \<Rightarrow> string \<Rightarrow> sitemap_path list \<times> request list" where
  "checkCommonSitemapPaths env websiteUrl = commonLoop env websiteUrl commonPaths ([], [])"

definition optionToList :: "'a option \<Rightarrow> 'a list" where
  "optionToList x = (case x of Some v \<Rightarrow> [v] | None \<Rightarrow> [])"

definition isXmlUrl :: "string \<Rightarrow> bool" where
  "isXmlUrl sitemapUrl = endsWith (toLowerCase sitemapUrl) ''.xml''"

definition getAllSitemapPaths :: "env \<Rightarrow> string \<Rightarrow> sitemap_path list \<times> request list" where
  "getAllSitemapPaths env websiteUrl =
     (let (hasSitemapInRobotsTxt, r1) = checkRobotsTxtForSitemapPath env websiteUrl;
          (robotsSitemaps, r2) = extractSitemapsFromRobotsTxt env websiteUrl;
          (standardSitemap, r3) = extractSitemapUrl env websiteUrl;
          (htmlSitemap, r4) = findSitemapInHtmlHeader env websiteUrl;
          (commonSitemaps, r5) =
            (if \<not> hasSitemapInRobotsTxt \<or> length robotsSitemaps = 0
             then checkCommonSitemapPaths env websiteUrl else ([], []));
          allSitemapPaths =
            robotsSitemaps @ optionToList standardSitemap @ optionToList htmlSitemap @
            commonSitemaps;
          uniqueUrls = new_Set (filter isXmlUrl (map sitemap_url allSitemapPaths))
      in (map (\<lambda>sitemapUrl. \<lparr>sitemap_url = sitemapUrl\<rparr>) uniqueUrls, r1 @ r2 @ r3 @ r4 @ r5))"

section \<open>Sitemap Extractor\<close>

text \<open>
  \<^verbatim>\<open>extractLinksFromSitemap\<close> has two handlers. The array \<^verbatim>\<open>links\<close> is declared outside
  the inner \<^verbatim>\<open>try\<close>, so the inner handler sees what the block pushed before it threw:
  the block is modelled by its outcome together with the final \<^verbatim>\<open>links\<close>.
\<close>

definition linkOfEntry :: "string \<Rightarrow> string \<Rightarrow> xml_entry \<Rightarrow> page_link" where
  "linkOfEntry sitemapUrl l urlObj =
     (let link = \<lparr>url = l, text' = None, source = Some sitemapUrl, lastmod = None,
                  priority = None, changefreq = None\<rparr>;
          link = (case e_lastmod urlObj of Some v \<Rightarrow> link\<lparr>lastmod := Some v\<rparr> | None \<Rightarrow> link);
          link = (case e_priority urlObj of Some v \<Rightarrow> link\<lparr>priority := Some v\<rparr> | None \<Rightarrow> link);
          link = (case e_changefreq urlObj of Some v \<Rightarrow> link\<lparr>changefreq := Some v\<rparr> | None \<Rightarrow> link)
      in link)"

text \<open>The loop over \<^verbatim>\<open>result.urlset.url\<close>; \<^verbatim>\<open>urlObj.loc[0]\<close> throws when \<^verbatim>\<open>urlObj.loc\<close> is undefined.\<close>

fun urlsetLoop :: "string \<Rightarrow> xml_entry list \<Rightarrow> page_link list \<Rightarrow> (error + unit) \<times> page_link list" where
  "urlsetLoop sitemapUrl [] links = (Inr (), links)"
| "urlsetLoop sitemapUrl (urlObj # rest) links =
     (case e_loc urlObj of
        None \<Rightarrow> (Inl TypeError, links)
      | Some l \<Rightarrow> urlsetLoop sitemapUrl rest (links @ [linkOfEntry sitemapUrl l urlObj]))"

text \<open>\<^verbatim>\<open>result.sitemapindex.sitemap.map((sitemap) => sitemap.loc[0])\<close>.\<close>

fun nestedLocs :: "xml_entry list \<Rightarrow> error + string list" where
  "nestedLocs [] = Inr []"
| "nestedLocs (sitemap # rest) =
     (case e_loc sitemap of
        None \<Rightarrow> Inl TypeError
      | Some l \<Rightarrow> (case nestedLocs rest of Inl e \<Rightarrow> Inl e | Inr ls \<Rightarrow> Inr (l # ls)))"

text \<open>
  The loop over \<^verbatim>\<open>nestedSitemapUrls\<close>, for a recursive call \<open>recur\<close> that may not return
  (\<open>None\<close>).
\<close>

fun nestedLoop ::
  "(string \<Rightarrow> page_link list option) \<Rightarrow> string list \<Rightarrow> page_link list \<Rightarrow> page_link list option" where
  "nestedLoop recur [] links = Some links"
| "nestedLoop recur (nestedUrl # rest) links =
     (case recur nestedUrl of
        None \<Rightarrow> None
      | Some nestedLinks \<Rightarrow> nestedLoop recur rest (links @ nestedLinks))"

text \<open>The inner \<^verbatim>\<open>try\<close> block.\<close>

definition tryXml ::
  "env \<Rightarrow> (string \<Rightarrow> page_link list option) \<Rightarrow> string \<Rightarrow> body \<Rightarrow>
   ((error + unit) \<times> page_link list) option" where
  "tryXml env recur sitemapUrl data =
     (case xml_parse env data of
        ParseError \<Rightarrow> Some (Inl ParseFailure, [])
      | ParsedNull \<Rightarrow> Some (Inl TypeError, [])
      | Parsed result \<Rightarrow>
          (case sitemapindex_sitemap result of
             Some sitemaps \<Rightarrow>
               (case nestedLocs sitemaps of
                  Inl e \<Rightarrow> Some (Inl e, [])
                | Inr nestedSitemapUrls \<Rightarrow>
                    map_option (Pair (Inr ())) (nestedLoop recur nestedSitemapUrls []))
           | None \<Rightarrow>
               (case urlset_url result of
                  Some urls \<Rightarrow> Some (urlsetLoop sitemapUrl urls [])
                | None \<Rightarrow> if news_news result then Some (Inr (), []) else Some (Inr (), []))))"

text \<open>
  The inner handler: the scan of the raw body for \<^verbatim>\<open><loc>...</loc>\<close>. The handler runs
  inside the outer \<^verbatim>\<open>try\<close>: on a body that is not a string \<^verbatim>\<open>response.data.match\<close> is not a
  function, and the call throws.
\<close>

definition textFallback :: "string \<Rightarrow> body \<Rightarrow> page_link list \<Rightarrow> error + page_link list" where
  "textFallback sitemapUrl data links =
     (case data of
        NonText s \<Rightarrow> Inl TypeError
      | Text t \<Rightarrow>
          Inr (links @
               map (\<lambda>m. \<lparr>url = trim (removeLocTags m), text' = None, source = Some sitemapUrl,
                          lastmod = None, priority = None, changefreq = None\<rparr>)
                 (matchLocAll t)))"

text \<open>
  The recursion into nested sitemaps follows references a remote server supplies and
  need not end. The model takes the depth of recursion it may use: \<open>None\<close> says that the
  call needs more. The outer handler returns the empty list for a fetch that is rejected
  and for what the inner handler throws.
\<close>

primrec extractLinksFromSitemap :: "env \<Rightarrow> nat \<Rightarrow> string \<Rightarrow> page_link list option" where
  "extractLinksFromSitemap env 0 = (\<lambda>sitemapUrl. None)"
| "extractLinksFromSitemap env (Suc depth) = (\<lambda>sitemapUrl.
     (case http_get env sitemapUrl of
        None \<Rightarrow> Some []
      | Some data \<Rightarrow>
          (case tryXml env (extractLinksFromSitemap env depth) sitemapUrl data of
             None \<Rightarrow> None
           | Some (Inr u, links) \<Rightarrow> Some links
           | Some (Inl xmlError, links) \<Rightarrow>
               (case textFallback sitemapUrl data links of
                  Inl error \<Rightarrow> Some []
                | Inr links' \<Rightarrow> Some links'))))"

section \<open>Page Scraper\<close>

text \<open>The callback of \<^verbatim>\<open>$("a").each\<close>, over the anchors in document order.\<close>

fun anchorsLoop ::
  "env \<Rightarrow> string \<Rightarrow> (string option \<times> string) list \<Rightarrow> page_link list \<Rightarrow> page_link list" where
  "anchorsLoop env pageUrl [] links = links"
| "anchorsLoop env pageUrl ((href, elementText) # rest) links =
     anchorsLoop env pageUrl rest
       (case href of
          None \<Rightarrow> links
        | Some h \<Rightarrow>
            if h = [] then links
            else if startsWith h ''#'' \<or> startsWith h ''javascript:'' then links
            else
              (let absoluteUrl = url_resolve env pageUrl h;
                   t = trim elementText
               in links @ [\<lparr>url = absoluteUrl, text' = (if t = [] then None else Some t),
                             source = Some pageUrl, lastmod = None, priority = None,
                             changefreq = None\<rparr>]))"

definition extractLinksFromPage :: "env \<Rightarrow> string \<Rightarrow> page_link list" where
  "extractLinksFromPage env pageUrl =
     (case http_get env pageUrl of
        None \<Rightarrow> []
      | Some data \<Rightarrow> anchorsLoop env pageUrl (html_anchors env data) [])"

section \<open>Orchestration\<close>

text \<open>The loop over \<^verbatim>\<open>sitemapPaths\<close>, for an extraction \<open>extract\<close> that may not return.\<close>

fun sitemapsLoop ::
  "(string \<Rightarrow> page_link list option) \<Rightarrow> sitemap_path list \<Rightarrow> page_link list \<Rightarrow> page_link list option" where
  "sitemapsLoop extract [] allLinks = Some allLinks"
| "sitemapsLoop extract (sitemap # rest) allLinks =
     (case extract (sitemap_url sitemap) of
        None \<Rightarrow> None
      | Some links \<Rightarrow> sitemapsLoop extract rest (allLinks @ links))"

definition extractAllLinks :: "env \<Rightarrow> nat \<Rightarrow> string \<Rightarrow> page_link list option" where
  "extractAllLinks env depth websiteUrl =
     (let sitemapPaths = fst (getAllSitemapPaths env websiteUrl) in
      map_option dedupLinks
        (if length sitemapPaths > 0
         then sitemapsLoop (extractLinksFromSitemap env depth) sitemapPaths []
         else Some (extractLinksFromPage env websiteUrl)))"

section \<open>Notions the properties are stated with\<close>

text \<open>
  The values of the locals \<^verbatim>\<open>commonSitemaps\<close> and \<^verbatim>\<open>allSitemapPaths\<close> of
  \<^verbatim>\<open>getAllSitemapPaths\<close>: the common-path candidates, none when the probe is skipped, and
  the candidates of the four sources, in the order the array literal spreads them.
\<close>

definition commonSitemaps :: "env \<Rightarrow> string \<Rightarrow> sitemap_path list" where
  "commonSitemaps env websiteUrl =
     (if \<not> fst (checkRobotsTxtForSitemapPath env websiteUrl) \<or>
         length (fst (extractSitemapsFromRobotsTxt env websiteUrl)) = 0
      then fst (checkCommonSitemapPaths env websiteUrl) else [])"

definition allSitemapPaths :: "env \<Rightarrow> string \<Rightarrow> sitemap_path list" where
  "allSitemapPaths env websiteUrl =
     fst (extractSitemapsFromRobotsTxt env websiteUrl) @
     optionToList (fst (extractSitemapUrl env websiteUrl)) @
     optionToList (fst (findSitemapInHtmlHeader env websiteUrl)) @
     commonSitemaps env websiteUrl"




text \<open>
  What one anchor contributes to the scrape, as the specification words it: nothing
  when the \<^verbatim>\<open>href\<close> is absent or empty, or begins with \<^verbatim>\<open>#\<close> or \<^verbatim>\<open>javascript:\<close>; else one
  entry with the resolved \<^verbatim>\<open>href\<close>, the page as source and the trimmed text, left out
  when empty.
\<close>

definition spec_anchor :: "env \<Rightarrow> string \<Rightarrow> string option \<times> string \<Rightarrow> page_link list" where
  "spec_anchor env pageUrl anchor =
     (case fst anchor of
        None \<Rightarrow> []
      | Some href \<Rightarrow>
          if href = [] \<or> startsWith href ''#'' \<or> startsWith href ''javascript:'' then []
          else [\<lparr>url = url_resolve env pageUrl href,
                 text' = (if trim (snd anchor) = [] then None else Some (trim (snd anchor))),
                 source = Some pageUrl, lastmod = None, priority = None, changefreq = None\<rparr>])"

text \<open>
  The sitemaps the extraction of \<open>sitemapUrl\<close> recurses into, and the bound on nesting:
  \<open>nestedWithin env d u\<close> holds when every chain of nested references from \<open>u\<close> has
  fewer than \<open>d\<close> sitemaps. A sitemap is on a cycle when the transitive closure of
  \<open>refersTo\<close> relates it to itself.
\<close>

definition nestedSitemapUrls :: "env \<Rightarrow> string \<Rightarrow> string list" where
  "nestedSitemapUrls env sitemapUrl =
     (case http_get env sitemapUrl of
        None \<Rightarrow> []
      | Some data \<Rightarrow>
          (case xml_parse env data of
             Parsed result \<Rightarrow>
               (case sitemapindex_sitemap result of
                  Some sitemaps \<Rightarrow> (case nestedLocs sitemaps of Inr urls \<Rightarrow> urls | Inl e \<Rightarrow> [])
                | None \<Rightarrow> [])
           | ParseError \<Rightarrow> []
           | ParsedNull \<Rightarrow> []))"

definition refersTo :: "env \<Rightarrow> string \<Rightarrow> string \<Rightarrow> bool" where
  "refersTo env sitemapUrl nestedUrl = (nestedUrl \<in> set (nestedSitemapUrls env sitemapUrl))"

primrec nestedWithin :: "env \<Rightarrow> nat \<Rightarrow> string \<Rightarrow> bool" where
  "nestedWithin env 0 = (\<lambda>sitemapUrl. False)"
| "nestedWithin env (Suc d) = (\<lambda>sitemapUrl.
     list_all (nestedWithin env d) (nestedSitemapUrls env sitemapUrl))"

text \<open>
  The strings of a list that satisfy \<open>P\<close>, each at the place of its first occurrence
  and in the order of the list.
\<close>

definition firstOccurrences :: "(string \<Rightarrow> bool) \<Rightarrow> string list \<Rightarrow> string list" where
  "firstOccurrences P xs =
     map ((!) xs) (filter (\<lambda>i. P (xs ! i) \<and> xs ! i \<notin> set (take i xs)) [0..<length xs])"

section \<open>Example sites\<close>

text \<open>
  Concrete sites, for the instances below. \<open>resolve_a_com\<close> is \<^verbatim>\<open>url.resolve\<close> on the
  references these sites use: against a page of \<^verbatim>\<open>https://a.com\<close>, a reference that
  begins with \<^verbatim>\<open>/\<close> is put after the origin, and an absolute URL is returned as it is.
\<close>

definition resolve_a_com :: "string \<Rightarrow> string \<Rightarrow> string" where
  "resolve_a_com from to = (if startsWith to ''/'' then ''https://a.com'' @ to else to)"

text \<open>
  A site whose robots.txt names two sitemaps, one of them the standard path, and whose
  home page links a directory with \<^verbatim>\<open><link rel=sitemap href=/map/>\<close>. It serves four
  sitemaps: \<^verbatim>\<open>custom.xml\<close>, a URL set of one entry; \<^verbatim>\<open>sitemap.xml\<close>, an index of
  \<^verbatim>\<open>gone.xml\<close>, which it does not serve, and of \<^verbatim>\<open>custom.xml\<close>; \<^verbatim>\<open>bad.xml\<close>, whose root
  element is not closed; and \<^verbatim>\<open>noloc.xml\<close>, a URL set whose second entry has no
  \<^verbatim>\<open>loc\<close>. It also serves \<^verbatim>\<open>loop.xml\<close>, an index of itself, and \<^verbatim>\<open>data.xml\<close>, the JSON
  body \<^verbatim>\<open>{"loc":"<loc>https://a.com/3</loc>"}\<close>, which \<^verbatim>\<open>axios\<close> hands on as an object.
  \<open>parse_a_com\<close> is what \<^verbatim>\<open>xml2js\<close> makes of these bodies.
\<close>

definition body_robots :: string where
  "body_robots =
     ''User-agent: *\<newline>Sitemap: https://a.com/custom.xml\<newline>sitemap: https://a.com/sitemap.xml \<newline>''"

definition body_urlset :: string where
  "body_urlset =
     ''<urlset><url><loc>https://a.com/1</loc><lastmod>2024-01-01</lastmod></url></urlset>''"

definition body_index :: string where
  "body_index =
     ''<sitemapindex><sitemap><loc>https://a.com/gone.xml</loc></sitemap><sitemap><loc>https://a.com/custom.xml</loc></sitemap></sitemapindex>''"

definition body_malformed :: string where
  "body_malformed = ''<urlset><loc>https://a.com/2</loc>''"

definition body_noloc :: string where
  "body_noloc =
     ''<urlset><url><loc>https://a.com/1</loc><lastmod>2024-01-01</lastmod></url><url><lastmod>2024-01-02</lastmod></url></urlset>''"

definition body_loop :: string where
  "body_loop =
     ''<sitemapindex><sitemap><loc>https://a.com/loop.xml</loc></sitemap></sitemapindex>''"

definition parse_a_com :: "body \<Rightarrow> parsed" where
  "parse_a_com data =
     (if data = Text body_urlset then
        Parsed \<lparr>sitemapindex_sitemap = None,
                urlset_url = Some [\<lparr>e_loc = Some ''https://a.com/1'', e_lastmod = Some ''2024-01-01'',
                                    e_priority = None, e_changefreq = None\<rparr>],
                news_news = False\<rparr>
      else if data = Text body_index then
        Parsed \<lparr>sitemapindex_sitemap =
                  Some [\<lparr>e_loc = Some ''https://a.com/gone.xml'', e_lastmod = None,
                          e_priority = None, e_changefreq = None\<rparr>,
                        \<lparr>e_loc = Some ''https://a.com/custom.xml'', e_lastmod = None,
                          e_priority = None, e_changefreq = None\<rparr>],
                urlset_url = None, news_news = False\<rparr>
      else if data = Text body_loop then
        Parsed \<lparr>sitemapindex_sitemap =
                  Some [\<lparr>e_loc = Some ''https://a.com/loop.xml'', e_lastmod = None,
                          e_priority = None, e_changefreq = None\<rparr>],
                urlset_url = None, news_news = False\<rparr>
      else if data = Text body_noloc then
        Parsed \<lparr>sitemapindex_sitemap = None,
                urlset_url = Some [\<lparr>e_loc = Some ''https://a.com/1'', e_lastmod = Some ''2024-01-01'',
                                    e_priority = None, e_changefreq = None\<rparr>,
                                  \<lparr>e_loc = None, e_lastmod = Some ''2024-01-02'',
                                    e_priority = None, e_changefreq = None\<rparr>],
                news_news = False\<rparr>
      else ParseError)"

definition env_custom :: env where
  "env_custom =
     \<lparr>http_get = (\<lambda>u.
        if u = ''https://a.com/robots.txt'' then Some (Text body_robots)
        else if u = ''https://a.com'' then Some (Text ''<link rel=sitemap href=/map/>'')
        else if u = ''https://a.com/custom.xml'' then Some (Text body_urlset)
        else if u = ''https://a.com/sitemap.xml'' then Some (Text body_index)
        else if u = ''https://a.com/bad.xml'' then Some (Text body_malformed)
        else if u = ''https://a.com/noloc.xml'' then Some (Text body_noloc)
        else if u = ''https://a.com/loop.xml'' then Some (Text body_loop)
        else if u = ''https://a.com/data.xml'' then Some (NonText ''[object Object]'')
        else None),
      http_head = (\<lambda>u. u = ''https://a.com/sitemap.xml''),
      url_resolve = resolve_a_com,
      xml_parse = parse_a_com,
      html_sitemap_link =
        (\<lambda>data. if data = Text ''<link rel=sitemap href=/map/>'' then Some ''/map/'' else None),
      html_anchors = (\<lambda>data. [])\<rparr>"

text \<open>
  A site whose robots.txt names a compressed sitemap only, with no sitemap at any
  probed path; its home page has five anchors.
\<close>

definition body_home :: string where
  "body_home =
     ''<a href=#top>Top</a><a href=javascript:void(0)>Go</a><a href=/about> About </a><a>None</a><a href=mailto:x@a.com> </a>''"

definition env_gz :: env where
  "env_gz =
     \<lparr>http_get = (\<lambda>u.
        if u = ''https://a.com/robots.txt'' then Some (Text ''Sitemap: https://a.com/sitemap.xml.gz'')
        else if u = ''https://a.com''
        then Some (Text body_home)
        else None),
      http_head = (\<lambda>u. False),
      url_resolve = resolve_a_com,
      xml_parse = (\<lambda>data. ParseError),
      html_sitemap_link = (\<lambda>data. None),
      html_anchors = (\<lambda>data.
        if data = Text body_home
        then [(Some ''#top'', ''Top''), (Some ''javascript:void(0)'', ''Go''),
              (Some ''/about'', '' About ''), (None, ''None''), (Some ''mailto:x@a.com'', '' '')]
        else [])\<rparr>"

section \<open>Properties of the deduplication\<close>

lemma dedupLoop_Cons:
  "dedupLoop (l # ls) m = dedupLoop ls (if url l \<in> fst ` set m then m else m @ [(url l, l)])"
  by (simp add: map_has_def map_set_def)

lemmas dedupLoop_step = dedupLoop.simps(1) dedupLoop_Cons

declare dedupLoop.simps [simp del]

lemma dedupLoop_append: "dedupLoop (xs @ ys) m = dedupLoop ys (dedupLoop xs m)"
  by (induction xs arbitrary: m) (simp_all add: dedupLoop_step)

lemma map_of_dedupLoop:
  "map_of (dedupLoop ls m) k =
     (case map_of m k of Some v \<Rightarrow> Some v | None \<Rightarrow> find (\<lambda>x. url x = k) ls)"
proof (induction ls arbitrary: m)
  case Nil
  then show ?case by (simp add: dedupLoop_step split: option.splits)
next
  case (Cons l ls)
  show ?case
  proof (cases "map_of m (url l)")
    case None
    then have "url l \<notin> fst ` set m" by (simp add: map_of_eq_None_iff)
    then show ?thesis using None by (auto simp: dedupLoop_step Cons.IH split: option.splits)
  next
    case (Some v)
    then have "url l \<in> fst ` set m" by (metis map_of_eq_None_iff option.distinct(1))
    then show ?thesis using Some by (auto simp: dedupLoop_step Cons.IH split: option.splits)
  qed
qed

lemma keys_dedupLoop_distinct:
  "distinct (map fst m) \<Longrightarrow> distinct (map fst (dedupLoop ls m))"
  by (induction ls arbitrary: m) (auto simp: dedupLoop_step)

lemma keyed_dedupLoop:
  "\<forall>p \<in> set m. url (snd p) = fst p \<Longrightarrow> \<forall>p \<in> set (dedupLoop ls m). url (snd p) = fst p"
proof (induction ls arbitrary: m)
  case Nil
  then show ?case by (simp add: dedupLoop_step)
next
  case (Cons l ls)
  have "\<forall>p \<in> set (if url l \<in> fst ` set m then m else m @ [(url l, l)]). url (snd p) = fst p"
    using Cons.prems by auto
  from Cons.IH[OF this] show ?case by (simp add: dedupLoop_step)
qed

lemma keyed_map_snd: "\<forall>p \<in> set m. url (snd p) = fst p \<Longrightarrow> map url (map snd m) = map fst m"
  by (induction m) auto

lemma keyed_find:
  "\<forall>p \<in> set m. url (snd p) = fst p \<Longrightarrow> find (\<lambda>x. url x = u) (map snd m) = map_of m u"
  by (induction m) auto

lemma dedupLoop_seen: "url ` set ls \<subseteq> fst ` set m \<Longrightarrow> dedupLoop ls m = m"
  by (induction ls arbitrary: m) (auto simp: dedupLoop_step)

lemma keys_dedupLoop: "fst ` set (dedupLoop ls m) = fst ` set m \<union> url ` set ls"
  by (induction ls arbitrary: m) (auto simp: dedupLoop_step)

lemma dedupLoop_fresh:
  "distinct (map url ls) \<Longrightarrow> url ` set ls \<inter> fst ` set m = {} \<Longrightarrow>
   dedupLoop ls m = m @ map (\<lambda>l. (url l, l)) ls"
  by (induction ls arbitrary: m) (auto simp: dedupLoop_step)

lemma dedupLinks_keyed: "\<forall>p \<in> set (dedupLoop L []). url (snd p) = fst p"
  by (rule keyed_dedupLoop) simp

lemma dedupLinks_distinct: "distinct (map url (dedupLinks L))"
proof -
  have "distinct (map fst (dedupLoop L []))" by (rule keys_dedupLoop_distinct) simp
  then show ?thesis
    by (simp only: dedupLinks_def map_values_def keyed_map_snd[OF dedupLinks_keyed])
qed

lemma dedupLinks_find: "find (\<lambda>x. url x = u) (dedupLinks L) = find (\<lambda>x. url x = u) L"
  by (simp add: dedupLinks_def map_values_def keyed_find[OF dedupLinks_keyed] map_of_dedupLoop)

text \<open>
  C1. The deduplicated sequence holds no two entries with the same \<open>url\<close> (equality of
  strings, case-sensitive), and for every \<open>url\<close> the entry it holds is the first entry
  of the input with that \<open>url\<close>, with all its fields; a \<open>url\<close> of no input entry has no
  entry.
\<close>

theorem dedupLinks_first_occurrence:
  "distinct (map url (dedupLinks L)) \<and>
   (\<forall>u. find (\<lambda>x. url x = u) (dedupLinks L) = find (\<lambda>x. url x = u) L)"
  using dedupLinks_distinct dedupLinks_find by blast

theorem dedupLinks_first_occurrence_witness:
  "dedupLinks
     [\<lparr>url = ''https://a.com/1'', text' = Some ''first'', source = Some ''https://a.com/s.xml'',
       lastmod = Some ''2024-01-01'', priority = None, changefreq = None\<rparr>,
      \<lparr>url = ''https://a.com/2'', text' = None, source = None,
       lastmod = None, priority = None, changefreq = None\<rparr>,
      \<lparr>url = ''https://a.com/1'', text' = Some ''second'', source = None,
       lastmod = None, priority = Some ''0.5'', changefreq = None\<rparr>]
   = [\<lparr>url = ''https://a.com/1'', text' = Some ''first'', source = Some ''https://a.com/s.xml'',
       lastmod = Some ''2024-01-01'', priority = None, changefreq = None\<rparr>,
      \<lparr>url = ''https://a.com/2'', text' = None, source = None,
       lastmod = None, priority = None, changefreq = None\<rparr>]
   \<and> find (\<lambda>x. url x = ''https://a.com/1'')
       (dedupLinks
         [\<lparr>url = ''https://a.com/1'', text' = Some ''first'', source = Some ''https://a.com/s.xml'',
           lastmod = Some ''2024-01-01'', priority = None, changefreq = None\<rparr>,
          \<lparr>url = ''https://a.com/2'', text' = None, source = None,
           lastmod = None, priority = None, changefreq = None\<rparr>,
          \<lparr>url = ''https://a.com/1'', text' = Some ''second'', source = None,
           lastmod = None, priority = Some ''0.5'', changefreq = None\<rparr>])
     = Some \<lparr>url = ''https://a.com/1'', text' = Some ''first'', source = Some ''https://a.com/s.xml'',
       lastmod = Some ''2024-01-01'', priority = None, changefreq = None\<rparr>"
  using dedupLinks_first_occurrence
    [of "[\<lparr>url = ''https://a.com/1'', text' = Some ''first'', source = Some ''https://a.com/s.xml'',
       lastmod = Some ''2024-01-01'', priority = None, changefreq = None\<rparr>,
      \<lparr>url = ''https://a.com/2'', text' = None, source = None,
       lastmod = None, priority = None, changefreq = None\<rparr>,
      \<lparr>url = ''https://a.com/1'', text' = Some ''second'', source = None,
       lastmod = None, priority = Some ''0.5'', changefreq = None\<rparr>]"]
  by (simp add: dedupLinks_def map_values_def dedupLoop_step)

text \<open>
  C9. Deduplication is idempotent: a list followed by itself deduplicates to what the
  list alone does, and a deduplicated list is left as it is.
\<close>

theorem dedupLinks_idempotent:
  "dedupLinks (L @ L) = dedupLinks L \<and> dedupLinks (dedupLinks L) = dedupLinks L"
proof
  have "dedupLoop L (dedupLoop L []) = dedupLoop L []"
    by (rule dedupLoop_seen) (simp add: keys_dedupLoop)
  then show "dedupLinks (L @ L) = dedupLinks L"
    by (simp add: dedupLinks_def dedupLoop_append)
next
  have "dedupLoop (dedupLinks L) [] = map (\<lambda>l. (url l, l)) (dedupLinks L)"
    using dedupLoop_fresh[OF dedupLinks_distinct, of L "[]"] by simp
  then show "dedupLinks (dedupLinks L) = dedupLinks L"
    by (simp add: dedupLinks_def[of "dedupLinks L"] map_values_def comp_def)
qed

section \<open>Properties of the locator\<close>

lemma new_Set_snoc: "new_Set (xs @ [x]) = set_add (new_Set xs) x"
  by (simp add: new_Set_def)

lemma set_new_Set: "set (new_Set xs) = set xs"
  by (induction xs rule: rev_induct) (auto simp: new_Set_snoc set_add_def new_Set_def)





lemma firstOccurrences_snoc:
  "firstOccurrences P (xs @ [x]) = firstOccurrences P xs @ (if P x \<and> x \<notin> set xs then [x] else [])"
proof -
  have a: "filter (\<lambda>i. P ((xs @ [x]) ! i) \<and> (xs @ [x]) ! i \<notin> set (take i (xs @ [x]))) [0..<length xs]
        = filter (\<lambda>i. P (xs ! i) \<and> xs ! i \<notin> set (take i xs)) [0..<length xs]"
    by (rule filter_cong) (auto simp: nth_append)
  have b: "map ((!) (xs @ [x])) (filter (\<lambda>i. P (xs ! i) \<and> xs ! i \<notin> set (take i xs)) [0..<length xs])
     = map ((!) xs) (filter (\<lambda>i. P (xs ! i) \<and> xs ! i \<notin> set (take i xs)) [0..<length xs])"
    by (rule map_cong) (auto simp: nth_append)
  have c: "[0..<length (xs @ [x])] = [0..<length xs] @ [length xs]" by simp
  have d: "map ((!) (xs @ [x]))
      (filter (\<lambda>i. P ((xs @ [x]) ! i) \<and> (xs @ [x]) ! i \<notin> set (take i (xs @ [x]))) [length xs])
     = (if P x \<and> x \<notin> set xs then [x] else [])" by simp
  show ?thesis unfolding firstOccurrences_def c filter_append map_append a b d ..
qed

lemma new_Set_filter_firstOccurrences: "new_Set (filter P xs) = firstOccurrences P xs"
proof (induction xs rule: rev_induct)
  case Nil
  then show ?case by (simp add: new_Set_def firstOccurrences_def)
next
  case (snoc x xs)
  have "set (new_Set (filter P xs)) = {y \<in> set xs. P y}" by (simp add: set_new_Set)
  then show ?case
    by (auto simp: firstOccurrences_snoc new_Set_snoc set_add_def snoc.IH[symmetric])
qed

lemma robotsLines_eq:
  "robotsLines ls acc =
     acc @ map (\<lambda>m. \<lparr>sitemap_url = trim m\<rparr>) (List.map_filter matchSitemapLine ls)"
  by (induction ls arbitrary: acc) (auto simp: List.map_filter_simps split: option.splits)

lemma commonLoop_eq:
  "commonLoop env w ps (found, reqs) =
     (found @ map (\<lambda>u. \<lparr>sitemap_url = u\<rparr>) (filter (http_head env) (map (url_resolve env w) ps)),
      reqs @ map (\<lambda>p. HEAD (url_resolve env w p)) ps)"
  by (induction ps arbitrary: found reqs) (auto simp: Let_def)

lemma checkCommonSitemapPaths_eq:
  "checkCommonSitemapPaths env w =
     (map (\<lambda>u. \<lparr>sitemap_url = u\<rparr>) (filter (http_head env) (map (url_resolve env w) commonPaths)),
      map (\<lambda>p. HEAD (url_resolve env w p)) commonPaths)"
  by (simp add: checkCommonSitemapPaths_def commonLoop_eq)

lemma extractSitemapsFromRobotsTxt_eq:
  "fst (extractSitemapsFromRobotsTxt env w) =
     (case http_get env (url_resolve env w ROBOTS_TXT) of
        None \<Rightarrow> []
      | Some (Text data) \<Rightarrow>
          map (\<lambda>m. \<lparr>sitemap_url = trim m\<rparr>)
            (List.map_filter matchSitemapLine (split data CHR 0x0A))
      | Some (NonText s) \<Rightarrow> [])"
  by (simp add: extractSitemapsFromRobotsTxt_def Let_def robotsLines_eq
      split: option.splits body.splits)










lemma getAllSitemapPaths_fst:
  "fst (getAllSitemapPaths env w) =
     map (\<lambda>u. \<lparr>sitemap_url = u\<rparr>)
       (new_Set (filter isXmlUrl (map sitemap_url (allSitemapPaths env w))))"
  by (simp add: getAllSitemapPaths_def allSitemapPaths_def commonSitemaps_def Let_def
      split: prod.splits)


lemma env_custom_paths:
  "fst (getAllSitemapPaths env_custom ''https://a.com'') =
     [\<lparr>sitemap_url = ''https://a.com/custom.xml''\<rparr>, \<lparr>sitemap_url = ''https://a.com/sitemap.xml''\<rparr>]"
  by code_simp




text \<open>
  C10. The returned sequence keeps the order of discovery: the directive URLs of
  robots.txt in the order of its lines, then the standard path when its probe succeeds,
  then the HTML header's link, then the common paths that answer, in the order of the
  fixed list; every URL stands where it first occurs.
\<close>

theorem getAllSitemapPaths_discovery_order:
  "map sitemap_url (fst (getAllSitemapPaths env w)) =
     firstOccurrences (\<lambda>u. endsWith (toLowerCase u) ''.xml'')
       ((case http_get env (url_resolve env w ROBOTS_TXT) of
           None \<Rightarrow> []
         | Some (Text data) \<Rightarrow> map trim (List.map_filter matchSitemapLine (split data CHR 0x0A))
         | Some (NonText s) \<Rightarrow> []) @
        (if http_head env (w @ ''/sitemap.xml'') then [w @ ''/sitemap.xml''] else []) @
        map sitemap_url (optionToList (fst (findSitemapInHtmlHeader env w))) @
        (if \<not> fst (checkRobotsTxtForSitemapPath env w) \<or>
            fst (extractSitemapsFromRobotsTxt env w) = []
         then filter (http_head env) (map (url_resolve env w) commonPaths) else []))"
proof -
  have "map sitemap_url (allSitemapPaths env w) =
       ((case http_get env (url_resolve env w ROBOTS_TXT) of
           None \<Rightarrow> []
         | Some (Text data) \<Rightarrow> map trim (List.map_filter matchSitemapLine (split data CHR 0x0A))
         | Some (NonText s) \<Rightarrow> []) @
        (if http_head env (w @ ''/sitemap.xml'') then [w @ ''/sitemap.xml''] else []) @
        map sitemap_url (optionToList (fst (findSitemapInHtmlHeader env w))) @
        (if \<not> fst (checkRobotsTxtForSitemapPath env w) \<or>
            fst (extractSitemapsFromRobotsTxt env w) = []
         then filter (http_head env) (map (url_resolve env w) commonPaths) else []))"
    by (simp add: allSitemapPaths_def commonSitemaps_def extractSitemapsFromRobotsTxt_eq
        checkCommonSitemapPaths_eq extractSitemapUrl_def optionToList_def Let_def comp_def
        split: option.splits body.splits)
  moreover have "map sitemap_url (fst (getAllSitemapPaths env w)) =
      firstOccurrences isXmlUrl (map sitemap_url (allSitemapPaths env w))"
    by (simp add: getAllSitemapPaths_fst new_Set_filter_firstOccurrences comp_def)
  moreover have "isXmlUrl = (\<lambda>u. endsWith (toLowerCase u) ''.xml'')"
    by (simp add: isXmlUrl_def fun_eq_iff)
  ultimately show ?thesis by simp
qed

text \<open>
  The instance at the site \<open>env_custom\<close>.
\<close>

theorem getAllSitemapPaths_discovery_order_witness:
  "[''https://a.com/custom.xml'', ''https://a.com/sitemap.xml''] =
     firstOccurrences (\<lambda>u. endsWith (toLowerCase u) ''.xml'')
       [''https://a.com/custom.xml'', ''https://a.com/sitemap.xml'', ''https://a.com/sitemap.xml'',
        ''https://a.com/map/'']"
proof -
  have a: "(case http_get env_custom (url_resolve env_custom ''https://a.com'' ROBOTS_TXT) of
           None \<Rightarrow> []
         | Some (Text data) \<Rightarrow> map trim (List.map_filter matchSitemapLine (split data CHR 0x0A))
         | Some (NonText s) \<Rightarrow> [])
     = [''https://a.com/custom.xml'', ''https://a.com/sitemap.xml'']"
    by code_simp
  have b: "(if http_head env_custom (''https://a.com'' @ ''/sitemap.xml'')
       then [''https://a.com'' @ ''/sitemap.xml''] else []) = [''https://a.com/sitemap.xml'']"
    by code_simp
  have c: "map sitemap_url (optionToList (fst (findSitemapInHtmlHeader env_custom ''https://a.com'')))
     = [''https://a.com/map/'']"
    by code_simp
  have d: "(if \<not> fst (checkRobotsTxtForSitemapPath env_custom ''https://a.com'') \<or>
            fst (extractSitemapsFromRobotsTxt env_custom ''https://a.com'') = []
         then filter (http_head env_custom) (map (url_resolve env_custom ''https://a.com'') commonPaths)
         else []) = []"
    by code_simp
  show ?thesis
    using getAllSitemapPaths_discovery_order[of env_custom "''https://a.com''"]
    unfolding a b c d env_custom_paths by simp
qed




section \<open>Properties of the extractor\<close>

lemma linkOfEntry_eq:
  "linkOfEntry sitemapUrl l urlObj =
     \<lparr>url = l, text' = None, source = Some sitemapUrl, lastmod = e_lastmod urlObj,
      priority = e_priority urlObj, changefreq = e_changefreq urlObj\<rparr>"
  by (simp add: linkOfEntry_def Let_def split: option.splits)

lemma urlsetLoop_all_loc:
  "those (map e_loc es) = Some locs \<Longrightarrow>
   urlsetLoop u es links = (Inr (), links @ map (\<lambda>(l, e). linkOfEntry u l e) (zip locs es))"
proof (induction es arbitrary: locs links)
  case Nil
  then show ?case by simp
next
  case (Cons e es)
  then show ?case by (auto split: option.splits)
qed

lemma nestedLoop_eq:
  "nestedLoop recur urls links = map_option (\<lambda>ls. links @ concat ls) (those (map recur urls))"
proof (induction urls arbitrary: links)
  case Nil
  then show ?case by simp
next
  case (Cons v vs)
  then show ?case by (auto split: option.splits simp: option.map_comp comp_def)
qed

lemma sitemapsLoop_eq:
  "sitemapsLoop extract paths links =
     map_option (\<lambda>ls. links @ concat ls) (those (map (\<lambda>p. extract (sitemap_url p)) paths))"
proof (induction paths arbitrary: links)
  case Nil
  then show ?case by simp
next
  case (Cons v vs)
  then show ?case by (auto split: option.splits simp: option.map_comp comp_def)
qed

lemma those_append:
  "those (xs @ ys) =
     (case those xs of
        None \<Rightarrow> None
      | Some a \<Rightarrow> (case those ys of None \<Rightarrow> None | Some b \<Rightarrow> Some (a @ b)))"
  by (induction xs) (auto split: option.splits)

lemma those_skip_empty:
  "f v = Some [] \<Longrightarrow>
   map_option concat (those (map f (before @ v # after))) =
   map_option concat (those (map f (before @ after)))"
  by (auto simp: those_append split: option.splits)

lemma extract_fetch_failure:
  "http_get env u = None \<Longrightarrow> extractLinksFromSitemap env (Suc d) u = Some []"
  by simp

lemma extract_parse_failure_text:
  "http_get env u = Some (Text t) \<Longrightarrow>
   xml_parse env (Text t) = ParseError \<or> xml_parse env (Text t) = ParsedNull \<Longrightarrow>
   extractLinksFromSitemap env (Suc d) u =
     Some (map (\<lambda>m. \<lparr>url = trim (removeLocTags m), text' = None, source = Some u,
                       lastmod = None, priority = None, changefreq = None\<rparr>)
            (matchLocAll t))"
  by (auto simp: tryXml_def textFallback_def)

lemma extract_parse_failure_nontext:
  "http_get env u = Some (NonText s) \<Longrightarrow>
   xml_parse env (NonText s) = ParseError \<or> xml_parse env (NonText s) = ParsedNull \<Longrightarrow>
   extractLinksFromSitemap env (Suc d) u = Some []"
  by (auto simp: tryXml_def textFallback_def)

lemma extract_index:
  "http_get env u = Some data \<Longrightarrow> xml_parse env data = Parsed r \<Longrightarrow>
   sitemapindex_sitemap r = Some es \<Longrightarrow> nestedLocs es = Inr urls \<Longrightarrow>
   extractLinksFromSitemap env (Suc d) u =
     map_option concat (those (map (extractLinksFromSitemap env d) urls))"
  by (simp add: tryXml_def nestedLoop_eq option.map_comp comp_def split: option.splits)

lemma extract_urlset:
  "http_get env u = Some data \<Longrightarrow> xml_parse env data = Parsed r \<Longrightarrow>
   sitemapindex_sitemap r = None \<Longrightarrow> urlset_url r = Some es \<Longrightarrow>
   those (map e_loc es) = Some locs \<Longrightarrow>
   extractLinksFromSitemap env (Suc d) u = Some (map (\<lambda>(l, e). linkOfEntry u l e) (zip locs es))"
  by (simp add: tryXml_def urlsetLoop_all_loc)

lemma those_None_iff: "those xs = None \<longleftrightarrow> None \<in> set xs"
  by (induction xs) (auto split: option.splits)

text \<open>The inner block fails to return exactly when a recursive call does.\<close>

lemma tryXml_None_iff:
  "http_get env u = Some data \<Longrightarrow>
   tryXml env recur u data = None \<longleftrightarrow> those (map recur (nestedSitemapUrls env u)) = None"
  by (auto simp: tryXml_def nestedSitemapUrls_def nestedLoop_eq
      split: parsed.splits option.splits sum.splits)

lemma extract_None_iff:
  "extractLinksFromSitemap env (Suc d) u = None \<longleftrightarrow>
   those (map (extractLinksFromSitemap env d) (nestedSitemapUrls env u)) = None"
proof (cases "http_get env u")
  case None
  then show ?thesis by (simp add: nestedSitemapUrls_def)
next
  case (Some data)
  have "extractLinksFromSitemap env (Suc d) u = None \<longleftrightarrow>
      tryXml env (extractLinksFromSitemap env d) u data = None"
    using Some by (auto split: option.splits sum.splits prod.splits)
  then show ?thesis by (simp add: tryXml_None_iff[OF Some])
qed

lemma extract_returns_iff:
  "(\<exists>links. extractLinksFromSitemap env d u = Some links) \<longleftrightarrow> nestedWithin env d u"
proof (induction d arbitrary: u)
  case 0
  then show ?case by simp
next
  case (Suc d)
  have "(\<exists>links. extractLinksFromSitemap env (Suc d) u = Some links) \<longleftrightarrow>
      extractLinksFromSitemap env (Suc d) u \<noteq> None" by auto
  also have "\<dots> \<longleftrightarrow> None \<notin> set (map (extractLinksFromSitemap env d) (nestedSitemapUrls env u))"
    by (simp only: extract_None_iff those_None_iff)
  also have "\<dots> \<longleftrightarrow> (\<forall>v \<in> set (nestedSitemapUrls env u). \<exists>links. extractLinksFromSitemap env d v = Some links)"
    by (auto simp: image_iff) (metis option.exhaust)
  also have "\<dots> \<longleftrightarrow> nestedWithin env (Suc d) u"
    by (simp add: Suc.IH list_all_iff)
  finally show ?case .
qed

lemma those_mono:
  "(\<And>v r. v \<in> set vs \<Longrightarrow> f v = Some r \<Longrightarrow> g v = Some r) \<Longrightarrow>
   those (map f vs) = Some ls \<Longrightarrow> those (map g vs) = Some ls"
proof (induction vs arbitrary: ls)
  case Nil
  then show ?case by simp
next
  case (Cons v vs)
  from Cons.prems(2) obtain r rs where r: "f v = Some r" and rs: "those (map f vs) = Some rs"
    and ls: "ls = r # rs"
    by (auto split: option.splits)
  have "g v = Some r" using Cons.prems(1) r by simp
  moreover have "those (map g vs) = Some rs" using Cons.IH[OF _ rs] Cons.prems(1) by simp
  ultimately show ?case using ls by simp
qed

lemma extract_Suc:
  "extractLinksFromSitemap env d u = Some links \<Longrightarrow> extractLinksFromSitemap env (Suc d) u = Some links"
proof (induction d arbitrary: u links)
  case 0
  then show ?case by simp
next
  case (Suc d)
  have mono: "\<And>ls urls. those (map (extractLinksFromSitemap env d) urls) = Some ls \<Longrightarrow>
      those (map (extractLinksFromSitemap env (Suc d)) urls) = Some ls"
    by (rule those_mono[where f = "extractLinksFromSitemap env d"]) (use Suc.IH in auto)
  have "nestedLoop (extractLinksFromSitemap env d) urls acc = Some ls \<Longrightarrow>
        nestedLoop (extractLinksFromSitemap env (Suc d)) urls acc = Some ls" for urls acc ls
    using mono by (auto simp: nestedLoop_eq)
  then have step: "tryXml env (extractLinksFromSitemap env d) u data = Some x \<Longrightarrow>
      tryXml env (extractLinksFromSitemap env (Suc d)) u data = Some x" for data x
    by (auto simp: tryXml_def split: parsed.splits option.splits sum.splits)
  show ?case
  proof (cases "http_get env u")
    case None
    with Suc.prems show ?thesis by simp
  next
    case (Some data)
    with Suc.prems obtain x where x: "tryXml env (extractLinksFromSitemap env d) u data = Some x"
      by (cases "tryXml env (extractLinksFromSitemap env d) u data") auto
    from step[OF x] x Some Suc.prems show ?thesis
      by (simp del: extractLinksFromSitemap.simps
          add: extractLinksFromSitemap.simps(2)[of env "Suc d"] extractLinksFromSitemap.simps(2)[of env d])
  qed
qed

lemma extract_mono:
  "extractLinksFromSitemap env d u = Some links \<Longrightarrow> extractLinksFromSitemap env (d + k) u = Some links"
  by (induction k) (auto dest: extract_Suc)

lemma nestedWithin_refersTo:
  "nestedWithin env d u \<Longrightarrow> refersTo env u v \<Longrightarrow> \<exists>d'. d' < d \<and> nestedWithin env d' v"
  by (cases d) (auto simp: refersTo_def list_all_iff)

lemma nestedWithin_tranclp:
  "tranclp (refersTo env) u v \<Longrightarrow> nestedWithin env d u \<Longrightarrow> \<exists>d'. d' < d \<and> nestedWithin env d' v"
proof (induction arbitrary: d rule: tranclp_induct)
  case (base v)
  then show ?case by (rule nestedWithin_refersTo[rotated])
next
  case (step v w)
  from step.IH[OF step.prems] obtain d' where d': "d' < d" "nestedWithin env d' v" by blast
  from nestedWithin_refersTo[OF d'(2) step.hyps(2)] d'(1) show ?case
    by (meson less_trans)
qed

text \<open>On a cycle of references no depth bounds the nesting.\<close>

lemma cycle_not_nestedWithin: "tranclp (refersTo env) u u \<Longrightarrow> \<not> nestedWithin env d u"
proof (induction d rule: less_induct)
  case (less d)
  show ?case
  proof
    assume "nestedWithin env d u"
    from nestedWithin_tranclp[OF less.prems this] obtain d' where "d' < d" "nestedWithin env d' u"
      by blast
    with less.IH[OF _ less.prems] show False by blast
  qed
qed

lemma cycle_never_returns: "tranclp (refersTo env) u u \<Longrightarrow> extractLinksFromSitemap env n u = None"
  using cycle_not_nestedWithin[of env u n] extract_returns_iff[of env n u] by (cases "extractLinksFromSitemap env n u") auto

text \<open>
  C7. When the body parses to a URL set whose entries all have a \<^verbatim>\<open>loc\<close>, the extraction
  returns one entry for each, in order: its \<open>url\<close> is the \<^verbatim>\<open>loc\<close>, its \<open>source\<close> the sitemap
  URL, and \<open>lastmod\<close>, \<open>priority\<close> and \<open>changefreq\<close> are those of the entry, absent when the
  entry has none. For the body
  \<^verbatim>\<open><urlset><url><loc>https://a.com/1</loc><lastmod>2024-01-01</lastmod></url></urlset>\<close>,
  parsed as \<^verbatim>\<open>xml2js\<close> parses it, the result is the one entry with that \<open>url\<close>, that
  \<open>lastmod\<close> and the sitemap URL as \<open>source\<close>.
\<close>

theorem extractLinksFromSitemap_urlset:
  "(http_get env u = Some data \<and> xml_parse env data = Parsed r \<and>
    sitemapindex_sitemap r = None \<and> urlset_url r = Some es \<and> those (map e_loc es) = Some locs \<longrightarrow>
      extractLinksFromSitemap env (Suc d) u =
        Some (map (\<lambda>(l, e). \<lparr>url = l, text' = None, source = Some u, lastmod = e_lastmod e,
                              priority = e_priority e, changefreq = e_changefreq e\<rparr>)
               (zip locs es)))
   \<and> (http_get env u =
        Some (Text ''<urlset><url><loc>https://a.com/1</loc><lastmod>2024-01-01</lastmod></url></urlset>'') \<and>
      xml_parse env
        (Text ''<urlset><url><loc>https://a.com/1</loc><lastmod>2024-01-01</lastmod></url></urlset>'') =
        Parsed \<lparr>sitemapindex_sitemap = None,
                urlset_url = Some [\<lparr>e_loc = Some ''https://a.com/1'', e_lastmod = Some ''2024-01-01'',
                                    e_priority = None, e_changefreq = None\<rparr>],
                news_news = False\<rparr> \<longrightarrow>
      extractLinksFromSitemap env (Suc d) u =
        Some [\<lparr>url = ''https://a.com/1'', text' = None, source = Some u,
               lastmod = Some ''2024-01-01'', priority = None, changefreq = None\<rparr>])"
proof (intro conjI impI)
  assume "http_get env u = Some data \<and> xml_parse env data = Parsed r \<and>
    sitemapindex_sitemap r = None \<and> urlset_url r = Some es \<and> those (map e_loc es) = Some locs"
  then have "extractLinksFromSitemap env (Suc d) u = Some (map (\<lambda>(l, e). linkOfEntry u l e) (zip locs es))"
    by (intro extract_urlset) auto
  then show "extractLinksFromSitemap env (Suc d) u =
        Some (map (\<lambda>(l, e). \<lparr>url = l, text' = None, source = Some u, lastmod = e_lastmod e,
                              priority = e_priority e, changefreq = e_changefreq e\<rparr>)
               (zip locs es))"
    by (simp add: linkOfEntry_eq)
next
  assume h: "http_get env u =
        Some (Text ''<urlset><url><loc>https://a.com/1</loc><lastmod>2024-01-01</lastmod></url></urlset>'') \<and>
      xml_parse env
        (Text ''<urlset><url><loc>https://a.com/1</loc><lastmod>2024-01-01</lastmod></url></urlset>'') =
        Parsed \<lparr>sitemapindex_sitemap = None,
                urlset_url = Some [\<lparr>e_loc = Some ''https://a.com/1'', e_lastmod = Some ''2024-01-01'',
                                    e_priority = None, e_changefreq = None\<rparr>],
                news_news = False\<rparr>"
  have "extractLinksFromSitemap env (Suc d) u =
      Some (map (\<lambda>(l, e). linkOfEntry u l e)
        (zip [''https://a.com/1'']
          [\<lparr>e_loc = Some ''https://a.com/1'', e_lastmod = Some ''2024-01-01'',
                                    e_priority = None, e_changefreq = None\<rparr>]))"
    by (rule extract_urlset[OF conjunct1[OF h] conjunct2[OF h]]) simp_all
  then show "extractLinksFromSitemap env (Suc d) u =
        Some [\<lparr>url = ''https://a.com/1'', text' = None, source = Some u,
               lastmod = Some ''2024-01-01'', priority = None, changefreq = None\<rparr>]"
    by (simp add: linkOfEntry_eq)
qed

text \<open>
  The instance at \<^verbatim>\<open>https://a.com/custom.xml\<close> of the site \<open>env_custom\<close>.
\<close>

theorem extractLinksFromSitemap_urlset_witness:
  "extractLinksFromSitemap env_custom (Suc 0) ''https://a.com/custom.xml'' =
     Some [\<lparr>url = ''https://a.com/1'', text' = None, source = Some ''https://a.com/custom.xml'',
            lastmod = Some ''2024-01-01'', priority = None, changefreq = None\<rparr>]
   \<and> extractLinksFromSitemap env_custom (Suc 0) ''https://a.com/custom.xml'' =
     Some (map (\<lambda>(l, e). \<lparr>url = l, text' = None, source = Some ''https://a.com/custom.xml'',
                           lastmod = e_lastmod e, priority = e_priority e,
                           changefreq = e_changefreq e\<rparr>)
            (zip [''https://a.com/1'']
               [\<lparr>e_loc = Some ''https://a.com/1'', e_lastmod = Some ''2024-01-01'',
                 e_priority = None, e_changefreq = None\<rparr>]))"
proof
  have h1: "http_get env_custom ''https://a.com/custom.xml'' =
      Some (Text ''<urlset><url><loc>https://a.com/1</loc><lastmod>2024-01-01</lastmod></url></urlset>'')"
    by code_simp
  have h2: "xml_parse env_custom
        (Text ''<urlset><url><loc>https://a.com/1</loc><lastmod>2024-01-01</lastmod></url></urlset>'') =
        Parsed \<lparr>sitemapindex_sitemap = None,
                urlset_url = Some [\<lparr>e_loc = Some ''https://a.com/1'', e_lastmod = Some ''2024-01-01'',
                                    e_priority = None, e_changefreq = None\<rparr>],
                news_news = False\<rparr>"
    by code_simp
  note t = extractLinksFromSitemap_urlset[where env = env_custom
      and u = "''https://a.com/custom.xml''" and d = 0]
  show "extractLinksFromSitemap env_custom (Suc 0) ''https://a.com/custom.xml'' =
     Some [\<lparr>url = ''https://a.com/1'', text' = None, source = Some ''https://a.com/custom.xml'',
            lastmod = Some ''2024-01-01'', priority = None, changefreq = None\<rparr>]"
    by (rule mp[OF conjunct2[OF t]]) (intro conjI h1 h2)
  note g = extractLinksFromSitemap_urlset[where env = env_custom
      and u = "''https://a.com/custom.xml''" and d = 0
      and data = "Text ''<urlset><url><loc>https://a.com/1</loc><lastmod>2024-01-01</lastmod></url></urlset>''"
      and r = "\<lparr>sitemapindex_sitemap = None,
                urlset_url = Some [\<lparr>e_loc = Some ''https://a.com/1'', e_lastmod = Some ''2024-01-01'',
                                    e_priority = None, e_changefreq = None\<rparr>],
                news_news = False\<rparr>"
      and es = "[\<lparr>e_loc = Some ''https://a.com/1'', e_lastmod = Some ''2024-01-01'',
                                    e_priority = None, e_changefreq = None\<rparr>]"
      and locs = "[''https://a.com/1'']"]
  show "extractLinksFromSitemap env_custom (Suc 0) ''https://a.com/custom.xml'' =
     Some (map (\<lambda>(l, e). \<lparr>url = l, text' = None, source = Some ''https://a.com/custom.xml'',
                           lastmod = e_lastmod e, priority = e_priority e,
                           changefreq = e_changefreq e\<rparr>)
            (zip [''https://a.com/1'']
               [\<lparr>e_loc = Some ''https://a.com/1'', e_lastmod = Some ''2024-01-01'',
                 e_priority = None, e_changefreq = None\<rparr>]))"
    by (rule mp[OF conjunct1[OF g]]) (simp add: h1 h2)
qed

text \<open>
  C5, as amended. The call raises on no path. A fetch that fails yields the empty
  sequence. A structured parse that fails yields, for a body that is a string, the
  entries of the text scan of the body, and for a body that is not a string the empty
  sequence. For a sitemap index the result is the concatenation of the results for the
  nested sitemaps, in order, and a nested sitemap whose fetch fails adds nothing: the
  result is the same as without it. The call returns within depth \<open>d\<close> exactly when the
  nesting below the sitemap is shorter than \<open>d\<close>, and then returns the same sequence at
  every greater depth; for a sitemap on a cycle of references it returns at no depth.
\<close>

theorem extractLinksFromSitemap_failures:
  "(http_get env u = None \<longrightarrow> extractLinksFromSitemap env (Suc d) u = Some [])
   \<and> (http_get env u = Some (Text t) \<and>
      (xml_parse env (Text t) = ParseError \<or> xml_parse env (Text t) = ParsedNull) \<longrightarrow>
        extractLinksFromSitemap env (Suc d) u =
          Some (map (\<lambda>m. \<lparr>url = trim (removeLocTags m), text' = None, source = Some u,
                            lastmod = None, priority = None, changefreq = None\<rparr>)
                 (matchLocAll t)))
   \<and> (http_get env u = Some (NonText s) \<and>
      (xml_parse env (NonText s) = ParseError \<or> xml_parse env (NonText s) = ParsedNull) \<longrightarrow>
        extractLinksFromSitemap env (Suc d) u = Some [])
   \<and> (http_get env u = Some data \<and> xml_parse env data = Parsed r \<and>
      sitemapindex_sitemap r = Some es \<and> nestedLocs es = Inr (before @ v # after) \<longrightarrow>
        extractLinksFromSitemap env (Suc (Suc d)) u =
          map_option concat
            (those (map (extractLinksFromSitemap env (Suc d)) (before @ v # after)))
        \<and> (http_get env v = None \<longrightarrow>
            extractLinksFromSitemap env (Suc (Suc d)) u =
              map_option concat
                (those (map (extractLinksFromSitemap env (Suc d)) (before @ after)))))
   \<and> ((\<exists>links. extractLinksFromSitemap env d u = Some links) = nestedWithin env d u)
   \<and> (extractLinksFromSitemap env d u = Some links \<longrightarrow>
        (\<forall>k. extractLinksFromSitemap env (d + k) u = Some links))
   \<and> (tranclp (refersTo env) u u \<longrightarrow> (\<forall>n. extractLinksFromSitemap env n u = None))"
proof (intro conjI impI allI)
  assume "http_get env u = None"
  then show "extractLinksFromSitemap env (Suc d) u = Some []" by (rule extract_fetch_failure)
next
  assume "http_get env u = Some (Text t) \<and>
      (xml_parse env (Text t) = ParseError \<or> xml_parse env (Text t) = ParsedNull)"
  then show "extractLinksFromSitemap env (Suc d) u =
          Some (map (\<lambda>m. \<lparr>url = trim (removeLocTags m), text' = None, source = Some u,
                            lastmod = None, priority = None, changefreq = None\<rparr>)
                 (matchLocAll t))"
    using extract_parse_failure_text by blast
next
  assume "http_get env u = Some (NonText s) \<and>
      (xml_parse env (NonText s) = ParseError \<or> xml_parse env (NonText s) = ParsedNull)"
  then show "extractLinksFromSitemap env (Suc d) u = Some []"
    using extract_parse_failure_nontext by blast
next
  assume h: "http_get env u = Some data \<and> xml_parse env data = Parsed r \<and>
      sitemapindex_sitemap r = Some es \<and> nestedLocs es = Inr (before @ v # after)"
  then show idx: "extractLinksFromSitemap env (Suc (Suc d)) u =
          map_option concat
            (those (map (extractLinksFromSitemap env (Suc d)) (before @ v # after)))"
    by (intro extract_index) auto
  assume "http_get env v = None"
  then have "extractLinksFromSitemap env (Suc d) v = Some []" by (rule extract_fetch_failure)
  from those_skip_empty[of "extractLinksFromSitemap env (Suc d)", OF this] idx
  show "extractLinksFromSitemap env (Suc (Suc d)) u =
      map_option concat (those (map (extractLinksFromSitemap env (Suc d)) (before @ after)))"
    by simp
next
  show "(\<exists>links. extractLinksFromSitemap env d u = Some links) = nestedWithin env d u"
    by (rule extract_returns_iff)
next
  fix k
  assume "extractLinksFromSitemap env d u = Some links"
  then show "extractLinksFromSitemap env (d + k) u = Some links" by (rule extract_mono)
next
  fix n
  assume "tranclp (refersTo env) u u"
  then show "extractLinksFromSitemap env n u = None" by (rule cycle_never_returns)
qed

text \<open>
  The instances at the site \<open>env_custom\<close>: \<^verbatim>\<open>gone.xml\<close> is not served, \<^verbatim>\<open>bad.xml\<close> does not
  parse, \<^verbatim>\<open>data.xml\<close> is not a string, \<^verbatim>\<open>sitemap.xml\<close> is an index of \<^verbatim>\<open>gone.xml\<close> and
  \<^verbatim>\<open>custom.xml\<close>, and \<^verbatim>\<open>loop.xml\<close> is an index of itself.
\<close>

theorem extractLinksFromSitemap_failures_witness:
  "extractLinksFromSitemap env_custom (Suc 0) ''https://a.com/gone.xml'' = Some []
   \<and> extractLinksFromSitemap env_custom (Suc 0) ''https://a.com/bad.xml'' =
       Some [\<lparr>url = ''https://a.com/2'', text' = None, source = Some ''https://a.com/bad.xml'',
              lastmod = None, priority = None, changefreq = None\<rparr>]
   \<and> extractLinksFromSitemap env_custom (Suc 0) ''https://a.com/data.xml'' = Some []
   \<and> extractLinksFromSitemap env_custom (Suc (Suc 0)) ''https://a.com/sitemap.xml'' =
       map_option concat
         (those (map (extractLinksFromSitemap env_custom (Suc 0)) ([] @ [''https://a.com/custom.xml''])))
   \<and> (\<exists>links. extractLinksFromSitemap env_custom 2 ''https://a.com/sitemap.xml'' = Some links)
   \<and> (\<forall>k. extractLinksFromSitemap env_custom (Suc 0 + k) ''https://a.com/gone.xml'' = Some [])
   \<and> (\<forall>n. extractLinksFromSitemap env_custom n ''https://a.com/loop.xml'' = None)"
proof (intro conjI)
  have g: "http_get env_custom ''https://a.com/gone.xml'' = None" by code_simp
  from extractLinksFromSitemap_failures[where env = env_custom and u = "''https://a.com/gone.xml''"
      and d = 0] g
  show g1: "extractLinksFromSitemap env_custom (Suc 0) ''https://a.com/gone.xml'' = Some []"
    by blast
  have b1: "http_get env_custom ''https://a.com/bad.xml'' = Some (Text body_malformed)" by code_simp
  have b2: "xml_parse env_custom (Text body_malformed) = ParseError" by code_simp
  have b3: "map (\<lambda>m. \<lparr>url = trim (removeLocTags m), text' = None,
                       source = Some ''https://a.com/bad.xml'',
                       lastmod = None, priority = None, changefreq = None\<rparr>)
              (matchLocAll body_malformed) =
       [\<lparr>url = ''https://a.com/2'', text' = None, source = Some ''https://a.com/bad.xml'',
              lastmod = None, priority = None, changefreq = None\<rparr>]" by code_simp
  from extractLinksFromSitemap_failures[where env = env_custom and u = "''https://a.com/bad.xml''"
      and d = 0 and t = body_malformed] b1 b2
  have "extractLinksFromSitemap env_custom (Suc 0) ''https://a.com/bad.xml'' =
       Some (map (\<lambda>m. \<lparr>url = trim (removeLocTags m), text' = None,
                       source = Some ''https://a.com/bad.xml'',
                       lastmod = None, priority = None, changefreq = None\<rparr>)
              (matchLocAll body_malformed))"
    by blast
  then show "extractLinksFromSitemap env_custom (Suc 0) ''https://a.com/bad.xml'' =
       Some [\<lparr>url = ''https://a.com/2'', text' = None, source = Some ''https://a.com/bad.xml'',
              lastmod = None, priority = None, changefreq = None\<rparr>]"
    unfolding b3 .
  have j1: "http_get env_custom ''https://a.com/data.xml'' = Some (NonText ''[object Object]'')"
    by code_simp
  have j2: "xml_parse env_custom (NonText ''[object Object]'') = ParseError" by code_simp
  from extractLinksFromSitemap_failures[where env = env_custom and u = "''https://a.com/data.xml''"
      and d = 0 and s = "''[object Object]''"] j1 j2
  show "extractLinksFromSitemap env_custom (Suc 0) ''https://a.com/data.xml'' = Some []"
    by blast
  have i1: "http_get env_custom ''https://a.com/sitemap.xml'' = Some (Text body_index)" by code_simp
  have i2: "xml_parse env_custom (Text body_index) =
      Parsed \<lparr>sitemapindex_sitemap =
                  Some [\<lparr>e_loc = Some ''https://a.com/gone.xml'', e_lastmod = None,
                          e_priority = None, e_changefreq = None\<rparr>,
                        \<lparr>e_loc = Some ''https://a.com/custom.xml'', e_lastmod = None,
                          e_priority = None, e_changefreq = None\<rparr>],
                urlset_url = None, news_news = False\<rparr>" by code_simp
  have i3: "sitemapindex_sitemap \<lparr>sitemapindex_sitemap =
                  Some [\<lparr>e_loc = Some ''https://a.com/gone.xml'', e_lastmod = None,
                          e_priority = None, e_changefreq = None\<rparr>,
                        \<lparr>e_loc = Some ''https://a.com/custom.xml'', e_lastmod = None,
                          e_priority = None, e_changefreq = None\<rparr>],
                urlset_url = None, news_news = False\<rparr> =
        Some [\<lparr>e_loc = Some ''https://a.com/gone.xml'', e_lastmod = None,
                          e_priority = None, e_changefreq = None\<rparr>,
                        \<lparr>e_loc = Some ''https://a.com/custom.xml'', e_lastmod = None,
                          e_priority = None, e_changefreq = None\<rparr>]" by simp
  have i4: "nestedLocs [\<lparr>e_loc = Some ''https://a.com/gone.xml'', e_lastmod = None,
                          e_priority = None, e_changefreq = None\<rparr>,
                        \<lparr>e_loc = Some ''https://a.com/custom.xml'', e_lastmod = None,
                          e_priority = None, e_changefreq = None\<rparr>] =
        Inr ([] @ ''https://a.com/gone.xml'' # [''https://a.com/custom.xml''])" by simp
  from extractLinksFromSitemap_failures[where env = env_custom
      and u = "''https://a.com/sitemap.xml''" and d = 0 and data = "Text body_index"
      and before = "[]" and v = "''https://a.com/gone.xml''"
      and after = "[''https://a.com/custom.xml'']"] i1 i2 i3 i4 g
  show "extractLinksFromSitemap env_custom (Suc (Suc 0)) ''https://a.com/sitemap.xml'' =
       map_option concat
         (those (map (extractLinksFromSitemap env_custom (Suc 0)) ([] @ [''https://a.com/custom.xml''])))"
    by blast
  have n: "nestedWithin env_custom 2 ''https://a.com/sitemap.xml''" by code_simp
  from extractLinksFromSitemap_failures[where env = env_custom
      and u = "''https://a.com/sitemap.xml''" and d = 2] n
  show "\<exists>links. extractLinksFromSitemap env_custom 2 ''https://a.com/sitemap.xml'' = Some links"
    by blast
  from extractLinksFromSitemap_failures[where env = env_custom
      and u = "''https://a.com/gone.xml''" and d = "Suc 0" and links = "[]"] g1
  show "\<forall>k. extractLinksFromSitemap env_custom (Suc 0 + k) ''https://a.com/gone.xml'' = Some []"
    by blast
  have "refersTo env_custom ''https://a.com/loop.xml'' ''https://a.com/loop.xml''" by code_simp
  then have c: "tranclp (refersTo env_custom) ''https://a.com/loop.xml'' ''https://a.com/loop.xml''"
    by (rule tranclp.r_into_trancl)
  from extractLinksFromSitemap_failures[where env = env_custom
      and u = "''https://a.com/loop.xml''"] c
  show "\<forall>n. extractLinksFromSitemap env_custom n ''https://a.com/loop.xml'' = None"
    by blast
qed

text \<open>
  C5 as stated fails: the body of \<^verbatim>\<open>bad.xml\<close> does not parse, a processing failure, and
  the extraction yields one entry, not the empty sequence.
\<close>

theorem extractLinksFromSitemap_malformed:
  "http_get env_custom ''https://a.com/bad.xml'' = Some (Text ''<urlset><loc>https://a.com/2</loc>'')
   \<and> xml_parse env_custom (Text ''<urlset><loc>https://a.com/2</loc>'') = ParseError
   \<and> extractLinksFromSitemap env_custom 1 ''https://a.com/bad.xml'' =
       Some [\<lparr>url = ''https://a.com/2'', text' = None, source = Some ''https://a.com/bad.xml'',
              lastmod = None, priority = None, changefreq = None\<rparr>]"
  by code_simp

text \<open>
  C3 fails on the code. The second entry of \<^verbatim>\<open>noloc.xml\<close> has no \<^verbatim>\<open>loc\<close>: reading
  \<^verbatim>\<open>urlObj.loc[0]\<close> throws inside the inner \<^verbatim>\<open>try\<close>, after the first entry was pushed, and
  the handler scans the body and pushes the first URL again, without its \<open>lastmod\<close>. The
  entry is not skipped silently: the result holds the first entry twice.
\<close>

theorem extractLinksFromSitemap_missing_loc:
  "extractLinksFromSitemap env_custom 1 ''https://a.com/noloc.xml'' =
     Some [\<lparr>url = ''https://a.com/1'', text' = None, source = Some ''https://a.com/noloc.xml'',
            lastmod = Some ''2024-01-01'', priority = None, changefreq = None\<rparr>,
           \<lparr>url = ''https://a.com/1'', text' = None, source = Some ''https://a.com/noloc.xml'',
            lastmod = None, priority = None, changefreq = None\<rparr>]"
  by code_simp

section \<open>Properties of the scraper\<close>

lemma anchorsLoop_eq:
  "anchorsLoop env pageUrl anchors links = links @ concat (map (spec_anchor env pageUrl) anchors)"
proof (induction anchors arbitrary: links)
  case Nil
  then show ?case by simp
next
  case (Cons a anchors)
  obtain href t where a: "a = (href, t)" by (cases a)
  show ?case
    by (cases href) (simp_all add: a Cons.IH spec_anchor_def Let_def)
qed

text \<open>
  C8. When the page is fetched, the scrape is the concatenation, in document order, of
  what each anchor contributes. An anchor with no \<^verbatim>\<open>href\<close>, an empty one, or one that begins
  with \<^verbatim>\<open>#\<close> or \<^verbatim>\<open>javascript:\<close> contributes nothing. Every other anchor contributes one
  entry: its \<open>url\<close> is the \<^verbatim>\<open>href\<close> resolved against the page URL, its \<open>source\<close> the page
  URL, its text the trimmed text of the anchor, absent when that is empty. Nothing else
  is filtered.
\<close>

theorem extractLinksFromPage_anchors:
  "(http_get env pageUrl = Some data \<longrightarrow>
      extractLinksFromPage env pageUrl =
        concat (map (spec_anchor env pageUrl) (html_anchors env data)))
   \<and> spec_anchor env pageUrl (None, t) = []
   \<and> (href = [] \<or> startsWith href ''#'' \<or> startsWith href ''javascript:'' \<longrightarrow>
        spec_anchor env pageUrl (Some href, t) = [])
   \<and> (href \<noteq> [] \<and> \<not> startsWith href ''#'' \<and> \<not> startsWith href ''javascript:'' \<longrightarrow>
        spec_anchor env pageUrl (Some href, t) =
          [\<lparr>url = url_resolve env pageUrl href,
            text' = (if trim t = [] then None else Some (trim t)),
            source = Some pageUrl, lastmod = None, priority = None, changefreq = None\<rparr>])"
  by (simp add: extractLinksFromPage_def anchorsLoop_eq spec_anchor_def)

lemma env_gz_page:
  "extractLinksFromPage env_gz ''https://a.com'' =
     [\<lparr>url = ''https://a.com/about'', text' = Some ''About'', source = Some ''https://a.com'',
       lastmod = None, priority = None, changefreq = None\<rparr>,
      \<lparr>url = ''mailto:x@a.com'', text' = None, source = Some ''https://a.com'',
       lastmod = None, priority = None, changefreq = None\<rparr>]"
  by code_simp

text \<open>
  The instance at the home page of the site \<open>env_gz\<close>: of five anchors, the fragment, the
  script and the anchor without \<^verbatim>\<open>href\<close> contribute nothing; the \<^verbatim>\<open>mailto:\<close> link stays.
\<close>

theorem extractLinksFromPage_anchors_witness:
  "extractLinksFromPage env_gz ''https://a.com'' =
     [\<lparr>url = ''https://a.com/about'', text' = Some ''About'', source = Some ''https://a.com'',
       lastmod = None, priority = None, changefreq = None\<rparr>,
      \<lparr>url = ''mailto:x@a.com'', text' = None, source = Some ''https://a.com'',
       lastmod = None, priority = None, changefreq = None\<rparr>]
   \<and> spec_anchor env_gz ''https://a.com'' (Some ''#top'', ''Top'') = []
   \<and> spec_anchor env_gz ''https://a.com'' (Some ''javascript:void(0)'', ''Go'') = []
   \<and> spec_anchor env_gz ''https://a.com'' (Some ''/about'', '' About '') =
       [\<lparr>url = ''https://a.com/about'', text' = Some ''About'', source = Some ''https://a.com'',
         lastmod = None, priority = None, changefreq = None\<rparr>]"
proof (intro conjI)
  show "extractLinksFromPage env_gz ''https://a.com'' =
     [\<lparr>url = ''https://a.com/about'', text' = Some ''About'', source = Some ''https://a.com'',
       lastmod = None, priority = None, changefreq = None\<rparr>,
      \<lparr>url = ''mailto:x@a.com'', text' = None, source = Some ''https://a.com'',
       lastmod = None, priority = None, changefreq = None\<rparr>]"
  proof -
    have g: "http_get env_gz ''https://a.com'' = Some (Text body_home)" by code_simp
    have c: "concat (map (spec_anchor env_gz ''https://a.com'') (html_anchors env_gz (Text body_home))) =
       [\<lparr>url = ''https://a.com/about'', text' = Some ''About'', source = Some ''https://a.com'',
         lastmod = None, priority = None, changefreq = None\<rparr>,
        \<lparr>url = ''mailto:x@a.com'', text' = None, source = Some ''https://a.com'',
         lastmod = None, priority = None, changefreq = None\<rparr>]" by code_simp
    from extractLinksFromPage_anchors[where env = env_gz and pageUrl = "''https://a.com''" and data = "Text body_home"] g
    have "extractLinksFromPage env_gz ''https://a.com'' =
        concat (map (spec_anchor env_gz ''https://a.com'') (html_anchors env_gz (Text body_home)))"
      by blast
    then show ?thesis unfolding c .
  qed
  have s1: "startsWith ''#top'' ''#''" by code_simp
  from extractLinksFromPage_anchors[where env = env_gz and pageUrl = "''https://a.com''" and href = "''#top''" and t = "''Top''"] s1
  show "spec_anchor env_gz ''https://a.com'' (Some ''#top'', ''Top'') = []" by blast
  have s2: "startsWith ''javascript:void(0)'' ''javascript:''" by code_simp
  from extractLinksFromPage_anchors[where env = env_gz and pageUrl = "''https://a.com''" and href = "''javascript:void(0)''" and t = "''Go''"] s2
  show "spec_anchor env_gz ''https://a.com'' (Some ''javascript:void(0)'', ''Go'') = []" by blast
  have s3: "''/about'' \<noteq> [] \<and> \<not> startsWith ''/about'' ''#'' \<and> \<not> startsWith ''/about'' ''javascript:''"
    by code_simp
  have r: "url_resolve env_gz ''https://a.com'' ''/about'' = ''https://a.com/about''" by code_simp
  have t: "(if trim '' About '' = [] then None else Some (trim '' About '')) = Some ''About''" by code_simp
  from extractLinksFromPage_anchors[where env = env_gz and pageUrl = "''https://a.com''" and href = "''/about''" and t = "'' About ''"] s3
  have "spec_anchor env_gz ''https://a.com'' (Some ''/about'', '' About '') =
          [\<lparr>url = url_resolve env_gz ''https://a.com'' ''/about'',
            text' = (if trim '' About '' = [] then None else Some (trim '' About '')),
            source = Some ''https://a.com'', lastmod = None, priority = None, changefreq = None\<rparr>]"
    by blast
  then show "spec_anchor env_gz ''https://a.com'' (Some ''/about'', '' About '') =
       [\<lparr>url = ''https://a.com/about'', text' = Some ''About'', source = Some ''https://a.com'',
         lastmod = None, priority = None, changefreq = None\<rparr>]"
    unfolding r t .
qed

section \<open>Properties of the orchestration\<close>

text \<open>
  C2. When the locator returns no sitemap, \<^verbatim>\<open>extractAllLinks\<close> returns the deduplicated
  scrape of the website URL. When it returns at least one, the result is the deduplicated
  concatenation of the extractions of the sitemaps, in the order returned, and no scrape
  is in it; it is there when every extraction returns within the depth.
\<close>

theorem extractAllLinks_fallback_exclusive:
  "(fst (getAllSitemapPaths env w) = [] \<longrightarrow>
      extractAllLinks env depth w = Some (dedupLinks (extractLinksFromPage env w)))
   \<and> (fst (getAllSitemapPaths env w) \<noteq> [] \<longrightarrow>
      extractAllLinks env depth w =
        map_option (\<lambda>ls. dedupLinks (concat ls))
          (those (map (\<lambda>p. extractLinksFromSitemap env depth (sitemap_url p))
                    (fst (getAllSitemapPaths env w)))))"
  by (simp add: extractAllLinks_def Let_def sitemapsLoop_eq option.map_comp comp_def)

lemma env_gz_paths: "fst (getAllSitemapPaths env_gz ''https://a.com'') = []"
  by code_simp

lemma env_custom_extractions:
  "those (map (\<lambda>p. extractLinksFromSitemap env_custom 2 (sitemap_url p))
     [\<lparr>sitemap_url = ''https://a.com/custom.xml''\<rparr>, \<lparr>sitemap_url = ''https://a.com/sitemap.xml''\<rparr>]) =
   Some [[\<lparr>url = ''https://a.com/1'', text' = None, source = Some ''https://a.com/custom.xml'',
            lastmod = Some ''2024-01-01'', priority = None, changefreq = None\<rparr>],
         [\<lparr>url = ''https://a.com/1'', text' = None, source = Some ''https://a.com/custom.xml'',
            lastmod = Some ''2024-01-01'', priority = None, changefreq = None\<rparr>]]"
  by code_simp

text \<open>
  The instances at the site \<open>env_gz\<close>, where no sitemap is located, and at the site
  \<open>env_custom\<close>, where two are.
\<close>

theorem extractAllLinks_fallback_exclusive_witness:
  "extractAllLinks env_gz 0 ''https://a.com'' =
     Some (dedupLinks
       [\<lparr>url = ''https://a.com/about'', text' = Some ''About'', source = Some ''https://a.com'',
         lastmod = None, priority = None, changefreq = None\<rparr>,
        \<lparr>url = ''mailto:x@a.com'', text' = None, source = Some ''https://a.com'',
         lastmod = None, priority = None, changefreq = None\<rparr>])
   \<and> extractAllLinks env_custom 2 ''https://a.com'' =
     Some (dedupLinks
       [\<lparr>url = ''https://a.com/1'', text' = None, source = Some ''https://a.com/custom.xml'',
            lastmod = Some ''2024-01-01'', priority = None, changefreq = None\<rparr>,
        \<lparr>url = ''https://a.com/1'', text' = None, source = Some ''https://a.com/custom.xml'',
            lastmod = Some ''2024-01-01'', priority = None, changefreq = None\<rparr>])"
proof
  from extractAllLinks_fallback_exclusive[of env_gz "''https://a.com''" 0] env_gz_paths
  have "extractAllLinks env_gz 0 ''https://a.com'' =
      Some (dedupLinks (extractLinksFromPage env_gz ''https://a.com''))" by blast
  then show "extractAllLinks env_gz 0 ''https://a.com'' =
     Some (dedupLinks
       [\<lparr>url = ''https://a.com/about'', text' = Some ''About'', source = Some ''https://a.com'',
         lastmod = None, priority = None, changefreq = None\<rparr>,
        \<lparr>url = ''mailto:x@a.com'', text' = None, source = Some ''https://a.com'',
         lastmod = None, priority = None, changefreq = None\<rparr>])"
    unfolding env_gz_page .
next
  have ne: "fst (getAllSitemapPaths env_custom ''https://a.com'') \<noteq> []"
    unfolding env_custom_paths by simp
  from extractAllLinks_fallback_exclusive[of env_custom "''https://a.com''" 2] ne
  have "extractAllLinks env_custom 2 ''https://a.com'' =
        map_option (\<lambda>ls. dedupLinks (concat ls))
          (those (map (\<lambda>p. extractLinksFromSitemap env_custom 2 (sitemap_url p))
                    (fst (getAllSitemapPaths env_custom ''https://a.com''))))" by blast
  then show "extractAllLinks env_custom 2 ''https://a.com'' =
     Some (dedupLinks
       [\<lparr>url = ''https://a.com/1'', text' = None, source = Some ''https://a.com/custom.xml'',
            lastmod = Some ''2024-01-01'', priority = None, changefreq = None\<rparr>,
        \<lparr>url = ''https://a.com/1'', text' = None, source = Some ''https://a.com/custom.xml'',
            lastmod = Some ''2024-01-01'', priority = None, changefreq = None\<rparr>])"
    unfolding env_custom_paths env_custom_extractions by simp
qed

end
